theory Spec2Isabelle
  imports Complex_Main "HOL-Library.Word" "HOL-Library.Multiset" "HOL-Library.AList"
begin

section \<open>Update pipeline: \<open>runComputePass\<close> (src/gpu/computePipeline.ts)\<close>

text \<open>
  The command encoder records GPU commands; \<open>finish\<close> turns the recording into a
  command buffer and \<open>device.queue.submit\<close> appends it to the device queue. The
  device is modelled by its queue: the list of command buffers submitted so far.
  Pipeline and bind group are opaque handles.
\<close>

datatype command =
    SetPipeline nat
  | SetBindGroup nat nat
  | DispatchWorkgroups nat
  | EndPass
  | CopyBufferToBuffer nat

type_synonym commandBuffer = "command list"

record device =
  queue :: "commandBuffer list"

definition workgroupSize :: nat where
  "workgroupSize = 64"

text \<open>\<open>Math.ceil(atomCount / workgroupSize)\<close>: a real division, rounded up.\<close>

definition numWorkgroups :: "nat \<Rightarrow> nat" where
  "numWorkgroups atomCount = nat \<lceil>real atomCount / real workgroupSize\<rceil>"

definition runComputePass :: "device \<Rightarrow> nat \<Rightarrow> nat \<Rightarrow> nat \<Rightarrow> device" where
  "runComputePass dev pipeline bindGroup atomCount =
     (let passEncoder = [SetPipeline pipeline, SetBindGroup 0 bindGroup];
          passEncoder = passEncoder @ [DispatchWorkgroups (numWorkgroups atomCount)];
          passEncoder = passEncoder @ [EndPass];
          commandBuffer = passEncoder
      in dev\<lparr>queue := queue dev @ [commandBuffer]\<rparr>)"

text \<open>The workgroup counts of the dispatch calls recorded in a list of command buffers.\<close>

fun dispatchCounts :: "command list \<Rightarrow> nat list" where
  "dispatchCounts [] = []"
| "dispatchCounts (DispatchWorkgroups k # cs) = k # dispatchCounts cs"
| "dispatchCounts (c # cs) = dispatchCounts cs"

definition dispatches :: "device \<Rightarrow> nat list" where
  "dispatches dev = dispatchCounts (concat (queue dev))"

section \<open>Update kernel: \<open>main\<close> (src/gpu/shaders/atomUpdate.wgsl)\<close>

text \<open>
  The two storage buffers are runtime-sized arrays of \<open>vec4<f32>\<close>; the kernel only
  copies elements, so the element type is left open. One invocation receives its
  global invocation id (\<open>id.x\<close>, a \<open>u32\<close>) and returns the buffers together with the
  buffer accesses it performed, in order. \<open>arrayLength\<close> is the number of elements of
  the bound array. The kernel writes \<open>atomsOut\<close> at an index it has only checked
  against \<open>atomsIn\<close>; an index outside \<open>atomsOut\<close> is an invalid memory reference,
  whose effect WGSL leaves to the implementation: \<open>None\<close>.
\<close>

datatype access = ReadIn nat | WriteOut nat

record 'a buffers =
  atomsIn :: "'a list"
  atomsOut :: "'a list"

definition arrayLength :: "'a list \<Rightarrow> nat" where
  "arrayLength xs = length xs"

definition main :: "32 word \<Rightarrow> 'a buffers \<Rightarrow> ('a buffers \<times> access list) option" where
  "main id_x b =
     (let atomIndex = unat id_x
      in if atomIndex \<ge> arrayLength (atomsIn b) then Some (b, [])
         else (let currentPosition = atomsIn b ! atomIndex
               in if atomIndex < arrayLength (atomsOut b)
                  then Some (b\<lparr>atomsOut := (atomsOut b)[atomIndex := currentPosition]\<rparr>,
                             [ReadIn atomIndex, WriteOut atomIndex])
                  else None))"

section \<open>JavaScript numbers and objects\<close>

text \<open>
  The numbers the modelled code computes with are integers, the two infinities
  (the initial values of the min/max search) and \<open>NaN\<close> (the remainder by zero).
\<close>

datatype number = NaN | NegInfinity | Num int | Infinity

fun Math_min :: "number \<Rightarrow> number \<Rightarrow> number" where
  "Math_min NaN _ = NaN"
| "Math_min _ NaN = NaN"
| "Math_min NegInfinity _ = NegInfinity"
| "Math_min _ NegInfinity = NegInfinity"
| "Math_min Infinity y = y"
| "Math_min x Infinity = x"
| "Math_min (Num a) (Num b) = Num (min a b)"

fun Math_max :: "number \<Rightarrow> number \<Rightarrow> number" where
  "Math_max NaN _ = NaN"
| "Math_max _ NaN = NaN"
| "Math_max Infinity _ = Infinity"
| "Math_max _ Infinity = Infinity"
| "Math_max NegInfinity y = y"
| "Math_max x NegInfinity = x"
| "Math_max (Num a) (Num b) = Num (max a b)"

fun js_add :: "number \<Rightarrow> number \<Rightarrow> number" where
  "js_add (Num a) (Num b) = Num (a + b)"
| "js_add NaN _ = NaN"
| "js_add _ NaN = NaN"
| "js_add Infinity NegInfinity = NaN"
| "js_add NegInfinity Infinity = NaN"
| "js_add Infinity _ = Infinity"
| "js_add _ Infinity = Infinity"
| "js_add NegInfinity _ = NegInfinity"
| "js_add _ NegInfinity = NegInfinity"

text \<open>The remainder operator \<open>%\<close>: the result takes the sign of the dividend.\<close>

fun js_rem :: "number \<Rightarrow> number \<Rightarrow> number" where
  "js_rem (Num a) (Num b) = (if b = 0 then NaN else Num (sgn a * (\<bar>a\<bar> mod \<bar>b\<bar>)))"
| "js_rem (Num a) Infinity = Num a"
| "js_rem (Num a) NegInfinity = Num a"
| "js_rem _ _ = NaN"

text \<open>
  Strings are lists of characters; of their contents only equality and the ASCII
  digits matter below.

  An object literal \<open>{}\<close> used as a dictionary. Its own properties are kept in creation
  order. A property read also finds what the object inherits from \<open>Object.prototype\<close>,
  which here is always a function or an object and never an array or a number.
  Writing a key updates the own property in place or appends a new one (the key
  \<open>__proto__\<close> is the exception, handled where it can occur). \<open>Object.entries\<close> lists the own
  properties whose key is an array index (the canonical decimal form of an integer
  below \<open>2^32 - 1\<close>) in ascending numeric order, then the other keys in creation
  order.
\<close>

type_synonym 'v jsobj = "(string \<times> 'v) list"

datatype 'v property = Undefined | Inherited | Own 'v

definition inheritedNames :: "string list" where
  "inheritedNames =
     [''constructor'', ''__defineGetter__'', ''__defineSetter__'', ''hasOwnProperty'',
      ''__lookupGetter__'', ''__lookupSetter__'', ''isPrototypeOf'',
      ''propertyIsEnumerable'', ''toString'', ''valueOf'', ''__proto__'',
      ''toLocaleString'']"

definition inherited :: "string \<Rightarrow> bool" where
  "inherited k = (k \<in> set inheritedNames)"

definition getProp :: "'v jsobj \<Rightarrow> string \<Rightarrow> 'v property" where
  "getProp obj k =
     (case map_of obj k of
        Some v \<Rightarrow> Own v
      | None \<Rightarrow> if inherited k then Inherited else Undefined)"

definition setProp :: "'v jsobj \<Rightarrow> string \<Rightarrow> 'v \<Rightarrow> 'v jsobj" where
  "setProp obj k v = AList.update k v obj"

definition isDigit :: "char \<Rightarrow> bool" where
  "isDigit c = (c \<in> set ''0123456789'')"

definition digitValue :: "char \<Rightarrow> nat" where
  "digitValue c = length (takeWhile (\<lambda>d. d \<noteq> c) ''0123456789'')"

definition decimal :: "string \<Rightarrow> nat" where
  "decimal s = foldl (\<lambda>n c. 10 * n + digitValue c) 0 s"

definition isArrayIndex :: "string \<Rightarrow> bool" where
  "isArrayIndex s =
     (s \<noteq> [] \<and> list_all isDigit s \<and> (if hd s = CHR ''0'' then length s = 1 else True)
      \<and> decimal s < 2 ^ 32 - 1)"

definition keyOrder :: "('a \<Rightarrow> string) \<Rightarrow> 'a list \<Rightarrow> 'a list" where
  "keyOrder key xs =
     sort_key (\<lambda>x. decimal (key x)) (filter (\<lambda>x. isArrayIndex (key x)) xs)
     @ filter (\<lambda>x. \<not> isArrayIndex (key x)) xs"

definition entries :: "'v jsobj \<Rightarrow> (string \<times> 'v) list" where
  "entries obj = keyOrder fst obj"

section \<open>Trajectory data (src/types/simulation.ts)\<close>

text \<open>
  An atom carries its element, name, residue name, chain id and an optional residue
  index. The coordinates and the colour are floating-point values that none of the
  functions below inspects; they are left out of the record.
\<close>

record atom =
  element :: string
  name :: string
  residue :: string
  chain :: string
  residue_index :: "int option"

record simulationMetadata =
  source :: string
  num_frames :: nat
  num_atoms :: nat

record trajectoryData =
  metadata :: simulationMetadata
  frames :: "atom list list"

section \<open>Chain metadata: \<open>calculateChainInfo\<close> (src/types/chainMetadata.ts)\<close>

record residueRange =
  rangeStart :: number
  rangeEnd :: number

record chainInfo =
  chainId :: string
  atomCount :: nat
  residueCount :: nat
  residueRange :: residueRange
  commonResidues :: "string list"

text \<open>The \<open>Set\<close> of residue indices, as the list of its members in insertion order.\<close>

definition uniqueResidues :: "atom list \<Rightarrow> int list" where
  "uniqueResidues atoms =
     foldl (\<lambda>s atom. case residue_index atom of
                        None \<Rightarrow> s
                      | Some i \<Rightarrow> if i \<in> set s then s else s @ [i]) [] atoms"

definition minMaxStep :: "number \<times> number \<Rightarrow> atom \<Rightarrow> number \<times> number" where
  "minMaxStep mm atom =
     (case residue_index atom of
        None \<Rightarrow> mm
      | Some i \<Rightarrow> (Math_min (fst mm) (Num i), Math_max (snd mm) (Num i)))"

definition minMaxResidue :: "atom list \<Rightarrow> number \<times> number" where
  "minMaxResidue atoms = foldl minMaxStep (Infinity, NegInfinity) atoms"

text \<open>
  A value of the frequency table: a count, or, once a residue name has met an
  inherited property, a text. \<open>(residueFrequency[resName] || 0) + 1\<close> adds 1 to a count
  and appends \<open>"1"\<close> to a text; an inherited function or object is truthy and
  \<open>+ 1\<close> turns it into a text (\<open>"function Object() { [native code] }1"\<close>), which is
  never the text of a number. The assignment creates an own property, except under
  the key \<open>__proto__\<close>, whose inherited setter ignores a text.
\<close>

datatype frequency = Count nat | Text

definition frequencyStep :: "frequency jsobj \<Rightarrow> atom \<Rightarrow> frequency jsobj" where
  "frequencyStep residueFrequency atom =
     (let resName = residue atom
      in case getProp residueFrequency resName of
           Undefined \<Rightarrow> setProp residueFrequency resName (Count (0 + 1))
         | Own (Count n) \<Rightarrow> setProp residueFrequency resName (Count (n + 1))
         | Own Text \<Rightarrow> setProp residueFrequency resName Text
         | Inherited \<Rightarrow>
             if resName = ''__proto__'' then residueFrequency
             else setProp residueFrequency resName Text)"

definition residueFrequency :: "atom list \<Rightarrow> frequency jsobj" where
  "residueFrequency atoms = foldl frequencyStep [] atoms"

text \<open>
  \<open>sort(([, a], [, b]) => b - a)\<close>. The comparator yields the difference of two counts
  and \<open>NaN\<close>, which the sort reads as 0, as soon as a text is involved. It is a
  consistent comparator exactly when no value is a text or all counts are equal.
  For a consistent comparator ECMAScript fixes the result: the stable arrangement,
  larger counts first; with a text and equal counts every comparison yields 0 and
  the array stays as it is. Otherwise the order is left to the engine, which is the
  parameter \<open>engine\<close>.
\<close>

type_synonym engineOrder = "(string \<times> frequency) list \<Rightarrow> (string \<times> frequency) list"

fun countOf :: "frequency \<Rightarrow> nat" where
  "countOf (Count n) = n"
| "countOf Text = 0"

definition counts :: "(string \<times> frequency) list \<Rightarrow> nat list" where
  "counts es = map (countOf \<circ> snd) (filter (\<lambda>e. snd e \<noteq> Text) es)"

definition sortByFrequency :: "engineOrder \<Rightarrow> (string \<times> frequency) list \<Rightarrow> (string \<times> frequency) list" where
  "sortByFrequency engine es =
     (if list_all (\<lambda>e. snd e \<noteq> Text) es then sort_key (\<lambda>e. - int (countOf (snd e))) es
      else if length (remdups (counts es)) \<le> 1 then es
      else engine es)"

definition calcCommonResidues :: "engineOrder \<Rightarrow> atom list \<Rightarrow> string list" where
  "calcCommonResidues engine atoms =
     map fst (take 5 (sortByFrequency engine (entries (residueFrequency atoms))))"

definition calculateChainInfo :: "engineOrder \<Rightarrow> atom list \<Rightarrow> string \<Rightarrow> chainInfo" where
  "calculateChainInfo engine atoms cid =
     (let minResidue = fst (minMaxResidue atoms);
          maxResidue = snd (minMaxResidue atoms)
      in \<lparr> chainId = cid,
           atomCount = length atoms,
           residueCount = length (uniqueResidues atoms),
           residueRange =
             \<lparr> rangeStart = (if minResidue = Infinity then Num 0 else minResidue),
               rangeEnd = (if maxResidue = NegInfinity then Num 0 else maxResidue) \<rparr>,
           commonResidues = calcCommonResidues engine atoms \<rparr>)"

section \<open>Chain grouping: \<open>chainMetadataMap\<close> of MolecularView\<close>

datatype error = TypeError

text \<open>
  \<open>if (!chainGroups[atom.chain]) chainGroups[atom.chain] = []\<close> followed by
  \<open>chainGroups[atom.chain].push(atom)\<close>. An array is truthy even when empty, and so
  is every inherited value; \<open>push\<close> exists on arrays only, so calling it on an
  inherited value throws.
\<close>

definition groupStep :: "atom list jsobj \<Rightarrow> atom \<Rightarrow> error + atom list jsobj" where
  "groupStep chainGroups atom =
     (let chainGroups =
            (case getProp chainGroups (chain atom) of
               Undefined \<Rightarrow> setProp chainGroups (chain atom) []
             | _ \<Rightarrow> chainGroups)
      in case getProp chainGroups (chain atom) of
           Own chainAtoms \<Rightarrow> Inr (setProp chainGroups (chain atom) (chainAtoms @ [atom]))
         | _ \<Rightarrow> Inl TypeError)"

fun forEach :: "('s \<Rightarrow> 'a \<Rightarrow> error + 's) \<Rightarrow> 'a list \<Rightarrow> 's \<Rightarrow> error + 's" where
  "forEach f [] s = Inr s"
| "forEach f (x # xs) s =
     (case f s x of
        Inl e \<Rightarrow> Inl e
      | Inr s' \<Rightarrow> forEach f xs s')"

definition chainGroups :: "atom list \<Rightarrow> error + atom list jsobj" where
  "chainGroups atoms = forEach groupStep atoms []"

text \<open>
  \<open>atoms\<close> is \<open>trajectory.frames[currentFrame]\<close>: \<open>None\<close> stands for \<open>undefined\<close>, the
  value read at an index outside the frame array.
\<close>

definition chainMetadataMap :: "engineOrder \<Rightarrow> atom list option \<Rightarrow> error + chainInfo jsobj" where
  "chainMetadataMap engine atoms =
     (case atoms of
        None \<Rightarrow> Inr []
      | Some as \<Rightarrow>
          (case chainGroups as of
             Inl e \<Rightarrow> Inl e
           | Inr groups \<Rightarrow>
               Inr (foldl (\<lambda>metadataMap (cid, chainAtoms).
                             setProp metadataMap cid (calculateChainInfo engine chainAtoms cid))
                      [] (entries groups))))"

section \<open>PDB loader: \<open>parsePDB\<close> and the \<open>FileUploader\<close> callback\<close>

fun split :: "char \<Rightarrow> string \<Rightarrow> string list" where
  "split sep [] = [[]]"
| "split sep (c # cs) =
     (if c = sep then [] # split sep cs
      else (case split sep cs of
              [] \<Rightarrow> [[c]]
            | l # ls \<Rightarrow> (c # l) # ls))"

definition startsWith :: "string \<Rightarrow> string \<Rightarrow> bool" where
  "startsWith s p = (take (length p) s = p)"

text \<open>
  \<open>parsePDB\<close> scans the lines of the file and appends one atom for each \<open>ATOM\<close> or
  \<open>HETATM\<close> record. How the record is read off the fixed columns of the line (with
  \<open>parseFloat\<close> for the coordinates) is the parameter \<open>atomOfLine\<close>. The bounding box
  and the centre are floating-point aggregates and are left out of the metadata.
\<close>

definition parsePDB :: "(string \<Rightarrow> atom) \<Rightarrow> string \<Rightarrow> string \<Rightarrow> trajectoryData" where
  "parsePDB atomOfLine content fileName =
     (let lines = split (CHR 0x0A) content;
          atoms = foldl (\<lambda>atoms line.
                           if startsWith line ''ATOM'' \<or> startsWith line ''HETATM''
                           then atoms @ [atomOfLine line] else atoms) [] lines;
          numAtoms = length atoms
      in \<lparr> metadata = \<lparr> source = fileName, num_frames = 1, num_atoms = numAtoms \<rparr>,
           frames = [atoms] \<rparr>)"

text \<open>
  The document contract of the specification: \<open>frames\<close> has \<open>num_frames\<close> elements and
  every frame has \<open>num_atoms\<close> particles.
\<close>

definition countsMatch :: "trajectoryData \<Rightarrow> bool" where
  "countsMatch d =
     (length (frames d) = num_frames (metadata d)
      \<and> list_all (\<lambda>frame. length frame = num_atoms (metadata d)) (frames d))"

section \<open>Playground page: trajectory store, playback, selection\<close>

text \<open>
  The state of \<open>MolecularDynamicsPlayground\<close> together with the \<open>selectedChain\<close> state
  of its \<open>MolecularView\<close> child. The child is rendered unconditionally and without a
  key, so it stays mounted and keeps its state when the \<open>trajectory\<close> prop changes.
\<close>

record playground =
  trajectory :: trajectoryData
  currentFrame :: number
  isPlaying :: bool
  isLoading :: bool
  selectedChain :: "string option"

definition totalFrames :: "playground \<Rightarrow> nat" where
  "totalFrames st = length (frames (trajectory st))"

text \<open>The effect that depends on \<open>trajectory\<close>: it runs on mount and after every change.\<close>

definition trajectoryEffect :: "playground \<Rightarrow> playground" where
  "trajectoryEffect st = st\<lparr>currentFrame := Num 0, isPlaying := True\<rparr>"

definition mount :: "trajectoryData \<Rightarrow> playground" where
  "mount defaultTrajectory =
     trajectoryEffect
       \<lparr> trajectory = defaultTrajectory, currentFrame = Num 0, isPlaying = False,
         isLoading = False, selectedChain = None \<rparr>"

text \<open>\<open>onDataLoaded\<close> is \<open>setTrajectory\<close>; the effect above follows the change.\<close>

definition onDataLoaded :: "trajectoryData \<Rightarrow> playground \<Rightarrow> playground" where
  "onDataLoaded data st = trajectoryEffect (st\<lparr>trajectory := data\<rparr>)"

definition onUploadStart :: "playground \<Rightarrow> playground" where
  "onUploadStart st = st\<lparr>isLoading := True\<rparr>"

definition onUploadEnd :: "playground \<Rightarrow> playground" where
  "onUploadEnd st = st\<lparr>isLoading := False\<rparr>"

text \<open>
  The body of the \<open>reader.onload\<close> timeout. \<open>parsePDB\<close> does not throw on a string, so
  the \<open>catch\<close> branch is not taken.
\<close>

definition fileLoaded :: "(string \<Rightarrow> atom) \<Rightarrow> string \<Rightarrow> string \<Rightarrow> playground \<Rightarrow> playground" where
  "fileLoaded atomOfLine textStr fileName st =
     (let data = parsePDB atomOfLine textStr fileName
      in onUploadEnd (onDataLoaded data st))"

text \<open>
  The interval callback \<open>setCurrentFrame((prev) => (prev + 1) % totalFrames)\<close>. The
  interval exists only while \<open>isPlaying\<close> holds.
\<close>

definition tick :: "playground \<Rightarrow> playground" where
  "tick st =
     (if isPlaying st
      then st\<lparr>currentFrame :=
                js_rem (js_add (currentFrame st) (Num 1)) (Num (int (totalFrames st)))\<rparr>
      else st)"

definition onFrameChange :: "number \<Rightarrow> playground \<Rightarrow> playground" where
  "onFrameChange n st = st\<lparr>currentFrame := n\<rparr>"

definition setIsPlaying :: "bool \<Rightarrow> playground \<Rightarrow> playground" where
  "setIsPlaying b st = st\<lparr>isPlaying := b\<rparr>"

definition handleChainSelect :: "string \<Rightarrow> playground \<Rightarrow> playground" where
  "handleChainSelect cid st = st\<lparr>selectedChain := Some cid\<rparr>"

definition handleChainDeselect :: "playground \<Rightarrow> playground" where
  "handleChainDeselect st = st\<lparr>selectedChain := None\<rparr>"

section \<open>GPU renderer: the per-frame loop of \<open>GPUAtomRenderer\<close>\<close>












section \<open>Auxiliary notions and example inputs\<close>

text \<open>The residue indices that are present in a group.\<close>

definition present :: "atom list \<Rightarrow> int set" where
  "present atoms = {i. Some i \<in> residue_index ` set atoms}"

text \<open>
  The distinct elements of a list in the order of their first occurrence; the chain
  groups and the metadata map of a frame in closed form.
\<close>

definition firstSeen :: "'a list \<Rightarrow> 'a list" where
  "firstSeen xs = rev (remdups (rev xs))"

definition groupsOf :: "atom list \<Rightarrow> atom list jsobj" where
  "groupsOf atoms =
     map (\<lambda>c. (c, filter (\<lambda>a. chain a = c) atoms)) (firstSeen (map chain atoms))"

definition metadataOf :: "engineOrder \<Rightarrow> atom list jsobj \<Rightarrow> chainInfo jsobj" where
  "metadataOf engine groups =
     map (\<lambda>(cid, chainAtoms). (cid, calculateChainInfo engine chainAtoms cid)) groups"

text \<open>
  The list of common residues in the specification's words: the distinct residue names
  in order of first appearance, sorted stably by descending frequency, cut to five.
\<close>

definition spec_commonResidues :: "atom list \<Rightarrow> string list" where
  "spec_commonResidues atoms =
     take 5 (sort_key (\<lambda>n. - int (count_list (map residue atoms) n))
               (firstSeen (map residue atoms)))"

text \<open>The frequency table of a list of residue names in closed form.\<close>

definition tableOf :: "string list \<Rightarrow> frequency jsobj" where
  "tableOf names = map (\<lambda>n. (n, Count (count_list names n))) (firstSeen names)"

text \<open>An engine that leaves an array alone when its comparator is not consistent.\<close>

definition keepOrder :: engineOrder where
  "keepOrder es = es"

definition atomA :: atom where
  "atomA = \<lparr>element = ''C'', name = ''CA'', residue = ''ALA'', chain = ''A'',
             residue_index = Some 1\<rparr>"

definition atomB :: atom where
  "atomB = \<lparr>element = ''N'', name = ''N'', residue = ''GLY'', chain = ''B'',
             residue_index = Some 2\<rparr>"

definition exampleFrame :: "atom list" where
  "exampleFrame = [atomA, atomB, atomA\<lparr>name := ''CB''\<rparr>]"

definition atom7 :: atom where
  "atom7 = \<lparr>element = ''C'', name = ''C1'', residue = ''7'', chain = ''A'',
             residue_index = None\<rparr>"

definition atomC :: atom where
  "atomC = \<lparr>element = ''C'', name = ''C2'', residue = ''constructor'', chain = ''A'',
             residue_index = None\<rparr>"

definition atomP :: atom where
  "atomP = \<lparr>element = ''C'', name = ''C3'', residue = ''__proto__'', chain = ''A'',
             residue_index = None\<rparr>"

definition goodDocument :: trajectoryData where
  "goodDocument =
     \<lparr>metadata = \<lparr>source = ''good'', num_frames = 1, num_atoms = 3\<rparr>,
      frames = [exampleFrame]\<rparr>"

definition badDocument :: trajectoryData where
  "badDocument =
     \<lparr>metadata = \<lparr>source = ''bad'', num_frames = 1, num_atoms = 2\<rparr>, frames = [[atomA]]\<rparr>"

definition emptyDocument :: trajectoryData where
  "emptyDocument =
     \<lparr>metadata = \<lparr>source = ''empty'', num_frames = 0, num_atoms = 0\<rparr>, frames = []\<rparr>"

definition fiveFrames :: playground where
  "fiveFrames =
     onFrameChange (Num 4)
       (mount \<lparr>metadata = \<lparr>source = ''five'', num_frames = 5, num_atoms = 0\<rparr>,
               frames = [[], [], [], [], []]\<rparr>)"


section \<open>Properties of the update pipeline\<close>

lemma dispatchCounts_append:
  "dispatchCounts (xs @ ys) = dispatchCounts xs @ dispatchCounts ys"
  by (induction xs rule: dispatchCounts.induct) simp_all

lemma ceil_div_64: "- ((- int n) div 64) = (int n + 63) div 64"
  by linarith

lemma nat_div_64: "nat ((int n + 63) div 64) = (n + 63) div 64"
  by (simp add: nat_div_distrib nat_add_distrib)

lemma numWorkgroups_div: "numWorkgroups n = (n + 63) div 64"
proof -
  have "\<lceil>real n / 64\<rceil> = \<lceil>real_of_int (int n) / real_of_int 64\<rceil>"
    by simp
  also have "\<dots> = - ((- int n) div 64)"
    by (simp only: ceiling_divide_eq_div)
  finally have "nat \<lceil>real n / 64\<rceil> = (n + 63) div 64"
    by (simp only: ceil_div_64 nat_div_64)
  then show ?thesis
    by (simp add: numWorkgroups_def workgroupSize_def)
qed

lemma dispatches_runComputePass:
  "dispatches (runComputePass dev p b n) = dispatches dev @ [numWorkgroups n]"
  by (simp add: dispatches_def runComputePass_def dispatchCounts_append)

text \<open>
  Claim C1. For every particle count \<open>n\<close>, \<open>runComputePass\<close> submits one command buffer
  holding exactly one dispatch, whose workgroup count is \<open>ceil(n / 64)\<close>: the least
  \<open>k\<close> with \<open>n \<le> 64 * k\<close>. For the counts 1, 63, 64, 65 and 10000 this gives
  1, 1, 1, 2 and 157 workgroups.
\<close>

theorem runComputePass_dispatch:
  "dispatches (runComputePass dev p b n) = dispatches dev @ [numWorkgroups n]
   \<and> length (queue (runComputePass dev p b n)) = Suc (length (queue dev))
   \<and> int (numWorkgroups n) = \<lceil>real n / 64\<rceil>
   \<and> n \<le> 64 * numWorkgroups n \<and> 64 * numWorkgroups n < n + 64
   \<and> map numWorkgroups [1, 63, 64, 65, 10000] = [1, 1, 1, 2, 157]"
proof -
  have c1: "dispatches (runComputePass dev p b n) = dispatches dev @ [numWorkgroups n]"
    by (rule dispatches_runComputePass)
  have c2: "length (queue (runComputePass dev p b n)) = Suc (length (queue dev))"
    by (simp add: runComputePass_def)
  have c3: "int (numWorkgroups n) = \<lceil>real n / 64\<rceil>"
    by (simp add: numWorkgroups_def workgroupSize_def)
  have c4: "n \<le> 64 * numWorkgroups n"
    unfolding numWorkgroups_div by linarith
  have c5: "64 * numWorkgroups n < n + 64"
    unfolding numWorkgroups_div by linarith
  have c6: "map numWorkgroups [1, 63, 64, 65, 10000] = [1, 1, 1, 2, 157]"
    unfolding numWorkgroups_div by simp
  from c1 c2 c3 c4 c5 c6 show ?thesis by blast
qed

section \<open>Properties of the update kernel\<close>

text \<open>
  Claim C9. An invocation whose global index is at least the length of the input
  array returns at the bounds check: it performs no buffer access and leaves both
  buffers as they were.
\<close>

theorem main_out_of_range:
  assumes "arrayLength (atomsIn b) \<le> unat gid"
  shows "main gid b = Some (b, [])"
  using assms by (simp add: main_def)

theorem main_out_of_range_witness:
  "arrayLength (atomsIn \<lparr>atomsIn = [10, 20, 30 :: int], atomsOut = [0, 0, 0]\<rparr>)
     \<le> unat (3 :: 32 word)
   \<and> main 3 \<lparr>atomsIn = [10, 20, 30 :: int], atomsOut = [0, 0, 0]\<rparr>
       = Some (\<lparr>atomsIn = [10, 20, 30], atomsOut = [0, 0, 0]\<rparr>, [])"
  using main_out_of_range [of "\<lparr>atomsIn = [10, 20, 30 :: int], atomsOut = [0, 0, 0]\<rparr>" 3]
  by (simp add: arrayLength_def)

text \<open>Within range, with buffers of equal length, the invocation copies one element.\<close>

lemma main_in_range:
  assumes "unat gid < length (atomsIn b)" and "length (atomsOut b) = length (atomsIn b)"
  shows "main gid b =
           Some (b\<lparr>atomsOut := (atomsOut b)[unat gid := atomsIn b ! unat gid]\<rparr>,
                 [ReadIn (unat gid), WriteOut (unat gid)])"
  using assms by (simp add: main_def arrayLength_def Let_def)

section \<open>Properties of the per-frame loop\<close>





section \<open>Properties of loading, selection and playback\<close>

text \<open>
  Claim C6, as stated, fails: a document whose only frame has one particle while
  \<open>num_atoms\<close> is 2 is accepted both as the initial trajectory and by the load handler,
  where it replaces the trajectory shown before.
\<close>

theorem load_accepts_mismatch_counterexample:
  "\<not> countsMatch badDocument
   \<and> trajectory (mount badDocument) = badDocument
   \<and> trajectory (onDataLoaded badDocument (mount goodDocument)) = badDocument
   \<and> trajectory (onDataLoaded badDocument (mount goodDocument))
       \<noteq> trajectory (mount goodDocument)"
  by (simp add: countsMatch_def badDocument_def goodDocument_def onDataLoaded_def mount_def
      trajectoryEffect_def)

lemma foldl_push:
  "foldl (\<lambda>atoms line. if P line then atoms @ [f line] else atoms) acc lines
     = acc @ map f (filter P lines)"
  by (induction lines arbitrary: acc) simp_all

lemma parsePDB_eq:
  "parsePDB atomOfLine textStr fileName =
     \<lparr> metadata =
         \<lparr> source = fileName, num_frames = 1,
           num_atoms = length (filter (\<lambda>line. startsWith line ''ATOM'' \<or> startsWith line ''HETATM'')
                                 (split (CHR 0x0A) textStr)) \<rparr>,
       frames = [map atomOfLine
                   (filter (\<lambda>line. startsWith line ''ATOM'' \<or> startsWith line ''HETATM'')
                      (split (CHR 0x0A) textStr))] \<rparr>"
  by (simp add: parsePDB_def Let_def foldl_push)

text \<open>
  Claim C6, amended. Nothing validates particle counts at load time: the initial
  trajectory and the load handler store whatever document they are given, as a
  whole. A document that the PDB uploader produces has exactly one frame, which
  holds one atom for each \<open>ATOM\<close> or \<open>HETATM\<close> line of the file, in order, with
  \<open>num_frames\<close> 1 and \<open>num_atoms\<close> the particle count of that frame; after the upload
  the store holds exactly that document.
\<close>

theorem load_swaps_whole_document:
  "frames (parsePDB atomOfLine textStr fileName)
     = [map atomOfLine
          (filter (\<lambda>line. startsWith line ''ATOM'' \<or> startsWith line ''HETATM'')
             (split (CHR 0x0A) textStr))]
   \<and> length (frames (parsePDB atomOfLine textStr fileName)) = 1
   \<and> num_frames (metadata (parsePDB atomOfLine textStr fileName)) = 1
   \<and> num_atoms (metadata (parsePDB atomOfLine textStr fileName))
       = length (hd (frames (parsePDB atomOfLine textStr fileName)))
   \<and> countsMatch (parsePDB atomOfLine textStr fileName)
   \<and> trajectory (fileLoaded atomOfLine textStr fileName st)
       = parsePDB atomOfLine textStr fileName
   \<and> trajectory (onDataLoaded data st) = data
   \<and> trajectory (mount data) = data"
  by (simp add: parsePDB_eq countsMatch_def fileLoaded_def onUploadEnd_def onDataLoaded_def
      trajectoryEffect_def mount_def)

text \<open>
  Claim C7, as stated, fails: chain \<open>A\<close>, selected before a load, is still selected
  after it, here after loading a trajectory that has no particles at all.
\<close>

theorem selection_kept_on_load_counterexample:
  "selectedChain (handleChainSelect ''A'' (mount goodDocument)) = Some ''A''
   \<and> selectedChain (onDataLoaded emptyDocument (handleChainSelect ''A'' (mount goodDocument)))
       = Some ''A''"
  by (simp add: onDataLoaded_def handleChainSelect_def trajectoryEffect_def)

text \<open>
  Claim C7, amended. Loading a trajectory leaves the selected chain as it was. The
  selection is none when the view is mounted and after a deselect, and it is the
  chosen chain after a select.
\<close>

theorem selection_unchanged_by_load:
  "selectedChain (onDataLoaded data st) = selectedChain st
   \<and> selectedChain (fileLoaded atomOfLine textStr fileName st) = selectedChain st
   \<and> selectedChain (mount data) = None
   \<and> selectedChain (handleChainDeselect st) = None
   \<and> selectedChain (handleChainSelect cid st) = Some cid"
  by (simp add: onDataLoaded_def fileLoaded_def onUploadEnd_def trajectoryEffect_def mount_def
      handleChainDeselect_def handleChainSelect_def)

lemma js_rem_nat: "0 < t \<Longrightarrow> js_rem (Num (int a)) (Num (int t)) = Num (int (a mod t))"
  by (cases "a = 0") (simp_all add: zmod_int)

lemma tick_step:
  assumes "isPlaying st" and "currentFrame st = Num (int i)" and "0 < totalFrames st"
  shows "currentFrame (tick st) = Num (int ((i + 1) mod totalFrames st))"
proof -
  have "js_add (Num (int i)) (Num 1) = Num (int (i + 1))" by simp
  then have "js_rem (js_add (currentFrame st) (Num 1)) (Num (int (totalFrames st)))
             = Num (int ((i + 1) mod totalFrames st))"
    using assms by (simp only: js_rem_nat)
  then show ?thesis
    using assms(1) by (simp add: tick_def)
qed

lemma tick_keeps:
  "isPlaying (tick st) = isPlaying st" "trajectory (tick st) = trajectory st"
  by (simp_all add: tick_def)

lemma ticks:
  assumes "isPlaying st" and "currentFrame st = Num (int i)"
    and "i < length (frames (trajectory st))"
  shows "currentFrame ((tick ^^ n) st) = Num (int ((i + n) mod length (frames (trajectory st))))
         \<and> isPlaying ((tick ^^ n) st) \<and> trajectory ((tick ^^ n) st) = trajectory st"
proof (induction n)
  case 0
  show ?case using assms by simp
next
  case (Suc n)
  let ?s = "(tick ^^ n) st"
  let ?t = "length (frames (trajectory st))"
  have pos: "0 < totalFrames ?s" using Suc assms(3) by (auto simp: totalFrames_def)
  have "currentFrame (tick ?s) = Num (int (((i + n) mod ?t + 1) mod totalFrames ?s))"
    using Suc pos by (intro tick_step) simp_all
  also have "((i + n) mod ?t + 1) mod totalFrames ?s = (i + Suc n) mod ?t"
    using Suc by (simp add: mod_Suc_eq totalFrames_def)
  finally show ?case using Suc by (simp add: tick_keeps)
qed

text \<open>
  Claim C8. While playing, with the current index \<open>i\<close> a valid frame index, one tick
  moves the index to \<open>(i + 1)\<close> modulo the number of frames of the trajectory: to 0
  from the last frame and to \<open>i + 1\<close> otherwise. Playback never stops by itself: after
  any number \<open>n\<close> of ticks the view is still playing the same trajectory, at index
  \<open>(i + n)\<close> modulo its number of frames. With five frames and index 4, one tick
  yields index 0 (the witness).
\<close>

theorem tick_advances:
  assumes "isPlaying st" and "currentFrame st = Num (int i)"
    and "i < length (frames (trajectory st))"
  shows "currentFrame (tick st) = Num (int ((i + 1) mod length (frames (trajectory st))))
         \<and> (if i + 1 = length (frames (trajectory st)) then currentFrame (tick st) = Num 0
             else currentFrame (tick st) = Num (int i + 1))
         \<and> (\<forall>n. currentFrame ((tick ^^ n) st)
                    = Num (int ((i + n) mod length (frames (trajectory st))))
                  \<and> isPlaying ((tick ^^ n) st)
                  \<and> trajectory ((tick ^^ n) st) = trajectory st)"
proof -
  have a: "currentFrame (tick st) = Num (int ((i + 1) mod length (frames (trajectory st))))"
    using ticks [OF assms, of 1] by simp
  have b: "(if i + 1 = length (frames (trajectory st)) then currentFrame (tick st) = Num 0
             else currentFrame (tick st) = Num (int i + 1))"
    using assms(3) by (simp add: a)
  from a b ticks [OF assms] show ?thesis by blast
qed

theorem tick_advances_witness:
  "isPlaying fiveFrames \<and> currentFrame fiveFrames = Num 4
   \<and> length (frames (trajectory fiveFrames)) = 5
   \<and> currentFrame (tick fiveFrames) = Num 0
   \<and> currentFrame (tick (tick fiveFrames)) = Num 1"
proof -
  have h: "isPlaying fiveFrames" "currentFrame fiveFrames = Num (int 4)"
    "4 < length (frames (trajectory fiveFrames))" "length (frames (trajectory fiveFrames)) = 5"
    by (simp_all add: fiveFrames_def onFrameChange_def mount_def trajectoryEffect_def)
  note t = tick_advances [OF h(1,2,3)]
  have one: "currentFrame (tick fiveFrames) = Num 0"
    using t h(4) by simp
  have "\<forall>n. currentFrame ((tick ^^ n) fiveFrames)
              = Num (int ((4 + n) mod length (frames (trajectory fiveFrames))))"
    using t by blast
  then have "currentFrame ((tick ^^ 2) fiveFrames) = Num (int ((4 + 2) mod 5))"
    using h(4) by simp
  then have two: "currentFrame (tick (tick fiveFrames)) = Num 1"
    by (simp add: numeral_2_eq_2)
  from h one two show ?thesis by simp
qed

section \<open>Properties of the chain metadata\<close>

lemma present_Nil: "present [] = {}"
  by (simp add: present_def)

lemma present_Cons:
  "present (a # atoms) =
     (case residue_index a of None \<Rightarrow> present atoms | Some i \<Rightarrow> insert i (present atoms))"
  by (auto simp: present_def split: option.splits)

lemma finite_present: "finite (present atoms)"
  by (induction atoms) (simp_all add: present_Nil present_Cons split: option.splits)

lemma minMaxStep_None: "residue_index a = None \<Longrightarrow> minMaxStep mm a = mm"
  by (simp add: minMaxStep_def)

lemma minMaxStep_Some:
  "residue_index a = Some i \<Longrightarrow>
     minMaxStep mm a = (Math_min (fst mm) (Num i), Math_max (snd mm) (Num i))"
  by (simp add: minMaxStep_def)

lemma minMax_from_Num:
  "foldl minMaxStep (Num lo, Num hi) atoms
     = (Num (Min (insert lo (present atoms))), Num (Max (insert hi (present atoms))))"
proof (induction atoms arbitrary: lo hi)
  case Nil
  show ?case by (simp add: present_Nil)
next
  case (Cons a atoms)
  show ?case
  proof (cases "residue_index a")
    case None
    then show ?thesis by (simp add: minMaxStep_None Cons.IH present_Cons)
  next
    case (Some i)
    have fin: "finite (present atoms)" by (rule finite_present)
    have "Min (insert (min lo i) (present atoms)) = Min (insert lo (insert i (present atoms)))"
      using fin by (cases "present atoms = {}") (simp_all add: min.assoc)
    moreover have
      "Max (insert (max hi i) (present atoms)) = Max (insert hi (insert i (present atoms)))"
      using fin by (cases "present atoms = {}") (simp_all add: max.assoc)
    ultimately show ?thesis
      using Some by (simp add: minMaxStep_Some Cons.IH present_Cons)
  qed
qed

lemma minMaxResidue_eq:
  "minMaxResidue atoms =
     (if present atoms = {} then (Infinity, NegInfinity)
      else (Num (Min (present atoms)), Num (Max (present atoms))))"
  unfolding minMaxResidue_def
proof (induction atoms)
  case Nil
  show ?case by (simp add: present_Nil)
next
  case (Cons a atoms)
  show ?case
  proof (cases "residue_index a")
    case None
    then show ?thesis using Cons.IH by (simp add: minMaxStep_None present_Cons)
  next
    case (Some i)
    then show ?thesis by (simp add: minMaxStep_Some present_Cons minMax_from_Num)
  qed
qed

text \<open>
  Claim C4. If no particle of the group has a residue index, the reported range is
  \<open>{0, 0}\<close>; otherwise its start and end are the least and the greatest residue index
  that is present. Particles without a residue index do not contribute.
\<close>

theorem residueRange_min_max:
  "residueRange (calculateChainInfo engine atoms cid) =
     (if {i. Some i \<in> residue_index ` set atoms} = {}
      then \<lparr>rangeStart = Num 0, rangeEnd = Num 0\<rparr>
      else \<lparr>rangeStart = Num (Min {i. Some i \<in> residue_index ` set atoms}),
            rangeEnd = Num (Max {i. Some i \<in> residue_index ` set atoms})\<rparr>)"
  by (simp add: calculateChainInfo_def minMaxResidue_eq present_def [symmetric])

text \<open>
  A particle without a residue index next to one with index 1: the range is \<open>{1, 1}\<close>,
  the missing index does not count as 0.
\<close>

lemma residueRange_example:
  "residueRange (calculateChainInfo keepOrder [atom7, atomA] ''A'') = \<lparr>rangeStart = Num 1, rangeEnd = Num 1\<rparr>"
  by (simp add: calculateChainInfo_def minMaxResidue_def minMaxStep_def atom7_def atomA_def Let_def)

section \<open>Properties of the chain grouping\<close>

lemma firstSeen_Nil: "firstSeen [] = []"
  by (simp add: firstSeen_def)

lemma firstSeen_snoc:
  "firstSeen (xs @ [x]) = (if x \<in> set xs then firstSeen xs else firstSeen xs @ [x])"
  by (simp add: firstSeen_def)

lemma set_firstSeen: "set (firstSeen xs) = set xs"
  by (simp add: firstSeen_def)

lemma distinct_firstSeen: "distinct (firstSeen xs)"
  by (simp add: firstSeen_def)

lemma update_fresh: "k \<notin> fst ` set al \<Longrightarrow> AList.update k v al = al @ [(k, v)]"
  by (induction al) auto

lemma update_at_end:
  "k \<notin> fst ` set al \<Longrightarrow> AList.update k v (al @ [(k, w)]) = al @ [(k, v)]"
  by (induction al) auto

lemma update_tabulated:
  "k \<in> set ks \<Longrightarrow> distinct ks \<Longrightarrow>
     AList.update k v (map (\<lambda>c. (c, g c)) ks) = map (\<lambda>c. (c, if c = k then v else g c)) ks"
  by (induction ks) (auto simp: update_fresh image_iff intro!: map_idI)

lemma map_of_tabulated:
  "map_of (map (\<lambda>c. (c, g c)) ks) k = (if k \<in> set ks then Some (g k) else None)"
  by (induction ks) auto

lemma forEach_snoc:
  "forEach f (xs @ [x]) s = (case forEach f xs s of Inl e \<Rightarrow> Inl e | Inr s' \<Rightarrow> f s' x)"
  by (induction xs arbitrary: s) (auto split: sum.splits)

lemma forEach_append:
  "forEach f (xs @ ys) s = (case forEach f xs s of Inl e \<Rightarrow> Inl e | Inr s' \<Rightarrow> forEach f ys s')"
  by (induction xs arbitrary: s) (auto split: sum.splits)

lemma getProp_groupsOf:
  "getProp (groupsOf atoms) c =
     (if c \<in> chain ` set atoms then Own (filter (\<lambda>a. chain a = c) atoms)
      else if inherited c then Inherited else Undefined)"
  by (simp add: getProp_def groupsOf_def map_of_tabulated set_firstSeen)

lemma groupStep_groupsOf:
  assumes "\<not> inherited (chain x)"
  shows "groupStep (groupsOf xs) x = Inr (groupsOf (xs @ [x]))"
proof (cases "chain x \<in> chain ` set xs")
  case True
  have "groupStep (groupsOf xs) x
          = Inr (setProp (groupsOf xs) (chain x) (filter (\<lambda>a. chain a = chain x) xs @ [x]))"
    using True by (simp add: groupStep_def getProp_groupsOf)
  also have "setProp (groupsOf xs) (chain x) (filter (\<lambda>a. chain a = chain x) xs @ [x])
               = groupsOf (xs @ [x])"
    using True
    by (simp add: setProp_def groupsOf_def update_tabulated set_firstSeen distinct_firstSeen
        firstSeen_snoc)
  finally show ?thesis .
next
  case False
  let ?g1 = "setProp (groupsOf xs) (chain x) []"
  have fresh: "chain x \<notin> fst ` set (groupsOf xs)"
    using False by (auto simp: groupsOf_def set_firstSeen)
  have g1: "?g1 = groupsOf xs @ [(chain x, [])]"
    using fresh by (simp add: setProp_def update_fresh)
  have own: "getProp ?g1 (chain x) = Own []"
    by (simp add: getProp_def setProp_def update_conv')
  have "groupStep (groupsOf xs) x = Inr (setProp ?g1 (chain x) ([] @ [x]))"
    using False assms own by (simp add: groupStep_def getProp_groupsOf)
  also have "setProp ?g1 (chain x) ([] @ [x]) = groupsOf xs @ [(chain x, [x])]"
    using fresh by (simp add: g1) (simp add: setProp_def update_at_end)
  also have "\<dots> = groupsOf (xs @ [x])"
  proof -
    have nx: "\<forall>a\<in>set xs. chain a \<noteq> chain x"
      using False by (auto simp: image_iff)
    then have "filter (\<lambda>a. chain a = chain x) xs = []"
      by (simp add: filter_empty_conv)
    moreover have "\<forall>c\<in>set (firstSeen (map chain xs)). chain x \<noteq> c"
      using nx by (auto simp: set_firstSeen)
    ultimately show ?thesis
      using False by (simp add: groupsOf_def firstSeen_snoc)
  qed
  finally show ?thesis .
qed

lemma chainGroups_eq:
  "\<forall>a\<in>set atoms. \<not> inherited (chain a) \<Longrightarrow> chainGroups atoms = Inr (groupsOf atoms)"
proof (induction atoms rule: rev_induct)
  case Nil
  show ?case by (simp add: chainGroups_def groupsOf_def firstSeen_Nil)
next
  case (snoc x xs)
  then have "chainGroups xs = Inr (groupsOf xs)" by simp
  then show ?case
    using snoc.prems by (simp add: chainGroups_def forEach_snoc groupStep_groupsOf)
qed

lemma groupStep_inherited:
  assumes "inherited (chain x)" and "chain x \<notin> chain ` set xs"
  shows "groupStep (groupsOf xs) x = Inl TypeError"
  using assms by (simp add: groupStep_def getProp_groupsOf)

lemma chainGroups_error:
  assumes "\<exists>a\<in>set atoms. inherited (chain a)"
  shows "chainGroups atoms = Inl TypeError"
proof -
  from assms obtain xs x ys where
    split: "atoms = xs @ x # ys" and x: "inherited (chain x)"
    and xs: "\<forall>a\<in>set xs. \<not> inherited (chain a)"
    by (auto simp: split_list_first_prop_iff)
  have fresh: "chain x \<notin> chain ` set xs"
    using x xs by auto
  have "forEach groupStep (xs @ [x]) [] = Inl TypeError"
    using chainGroups_eq [OF xs] groupStep_inherited [OF x fresh]
    by (simp add: forEach_snoc chainGroups_def)
  then have "forEach groupStep ((xs @ [x]) @ ys) [] = Inl TypeError"
    by (simp only: forEach_append sum.case)
  then show ?thesis
    by (simp add: chainGroups_def split)
qed

lemma chainGroups_cases:
  "chainGroups atoms =
     (if \<exists>a\<in>set atoms. inherited (chain a) then Inl TypeError else Inr (groupsOf atoms))"
  using chainGroups_eq chainGroups_error by auto

lemma mset_keyOrder: "mset (keyOrder key xs) = mset xs"
  by (simp add: keyOrder_def)

lemma set_keyOrder: "set (keyOrder key xs) = set xs"
  using mset_keyOrder [of key xs] by (metis set_mset_mset)

lemma distinct_keyOrder:
  assumes "distinct (map f xs)"
  shows "distinct (map f (keyOrder key xs))"
proof -
  have "mset (map f (keyOrder key xs)) = mset (map f xs)"
    by (simp add: mset_keyOrder)
  then show ?thesis
    using assms by (metis distinct_count_atmost_1 set_mset_mset)
qed

lemma foldl_setProp_fresh:
  assumes "distinct (map fst ps)" and "fst ` set acc \<inter> fst ` set ps = {}"
  shows "foldl (\<lambda>m (k, v). setProp m k (h v k)) acc ps = acc @ map (\<lambda>(k, v). (k, h v k)) ps"
  using assms
proof (induction ps arbitrary: acc)
  case Nil
  show ?case by simp
next
  case (Cons p ps)
  obtain k v where p: "p = (k, v)" by (cases p)
  have fresh: "k \<notin> fst ` set acc"
    using Cons.prems(2) p by auto
  have step: "setProp acc k (h v k) = acc @ [(k, h v k)]"
    using fresh by (simp add: setProp_def update_fresh)
  have disj: "fst ` set (acc @ [(k, h v k)]) \<inter> fst ` set ps = {}"
    using Cons.prems p by auto
  have "foldl (\<lambda>m (k, v). setProp m k (h v k)) (acc @ [(k, h v k)]) ps
          = (acc @ [(k, h v k)]) @ map (\<lambda>(k, v). (k, h v k)) ps"
    using Cons.prems(1) disj by (intro Cons.IH) simp_all
  then show ?case
    by (simp add: p step)
qed

lemma distinct_groupsOf: "distinct (map fst (groupsOf atoms))"
  by (simp add: groupsOf_def distinct_firstSeen comp_def)

lemma chainMetadataMap_cases:
  "chainMetadataMap engine (Some atoms) =
     (if \<exists>a\<in>set atoms. inherited (chain a) then Inl TypeError
      else Inr (metadataOf engine (entries (groupsOf atoms))))"
proof (cases "\<exists>a\<in>set atoms. inherited (chain a)")
  case True
  then show ?thesis
    by (simp add: chainMetadataMap_def chainGroups_cases)
next
  case False
  have d: "distinct (map fst (entries (groupsOf atoms)))"
    unfolding entries_def by (intro distinct_keyOrder distinct_groupsOf)
  have "foldl (\<lambda>m (cid, chainAtoms). setProp m cid (calculateChainInfo engine chainAtoms cid)) []
          (entries (groupsOf atoms))
        = [] @ map (\<lambda>(cid, chainAtoms). (cid, calculateChainInfo engine chainAtoms cid))
                 (entries (groupsOf atoms))"
    using d by (intro foldl_setProp_fresh) simp_all
  then show ?thesis
    using False by (simp add: chainMetadataMap_def chainGroups_cases metadataOf_def)
qed

lemma map_of_metadataOf:
  "map_of (metadataOf engine groups) c = map_option (\<lambda>as. calculateChainInfo engine as c) (map_of groups c)"
  by (induction groups) (auto simp: metadataOf_def)

lemma map_of_entries:
  assumes "distinct (map fst obj)"
  shows "map_of (entries obj) = map_of obj"
proof -
  have "distinct (map fst (entries obj))"
    unfolding entries_def using assms by (rule distinct_keyOrder)
  moreover have "set (entries obj) = set obj"
    by (simp add: entries_def set_keyOrder)
  ultimately show ?thesis
    using assms by (simp add: map_of_inject_set)
qed

lemma getProp_metadata:
  assumes "c \<in> chain ` set atoms"
  shows "getProp (metadataOf engine (entries (groupsOf atoms))) c
           = Own (calculateChainInfo engine (filter (\<lambda>a. chain a = c) atoms) c)"
proof -
  have "map_of (groupsOf atoms) c = Some (filter (\<lambda>a. chain a = c) atoms)"
    using assms by (simp add: groupsOf_def map_of_tabulated set_firstSeen)
  then show ?thesis
    by (simp add: getProp_def map_of_metadataOf map_of_entries distinct_groupsOf)
qed

lemma mset_groups_within:
  "distinct ks \<Longrightarrow>
     mset (concat (map (\<lambda>k. filter (\<lambda>a. f a = k) xs) ks)) = mset (filter (\<lambda>a. f a \<in> set ks) xs)"
proof (induction ks)
  case Nil
  show ?case by simp
next
  case (Cons k ks)
  have "mset (filter (\<lambda>a. f a = k) xs) + mset (filter (\<lambda>a. f a \<in> set ks) xs)
          = mset (filter (\<lambda>a. f a = k \<or> f a \<in> set ks) xs)"
    using Cons.prems by (induction xs) auto
  then show ?case
    using Cons by simp
qed

lemma mset_groupsOf: "mset (concat (map snd (groupsOf atoms))) = mset atoms"
proof -
  have "mset (concat (map snd (groupsOf atoms)))
          = mset (filter (\<lambda>a. chain a \<in> set (firstSeen (map chain atoms))) atoms)"
    using mset_groups_within [OF distinct_firstSeen, of chain atoms "map chain atoms"]
    by (simp add: groupsOf_def comp_def)
  then show ?thesis
    by (simp add: set_firstSeen)
qed

lemma atomCount_calculateChainInfo: "atomCount (calculateChainInfo engine as c) = length as"
  by (simp add: calculateChainInfo_def Let_def)

lemma sum_atomCount_metadataOf:
  "sum_list (map (\<lambda>(cid, info). atomCount info) (metadataOf engine groups))
     = length (concat (map snd groups))"
  by (induction groups) (auto simp: metadataOf_def atomCount_calculateChainInfo)

lemma sum_list_mset_cong:
  assumes "mset xs = mset ys"
  shows "sum_list (map g xs) = (sum_list (map g ys) :: nat)"
proof -
  have "mset (map g xs) = mset (map g ys)"
    using assms by simp
  then have "sum_mset (mset (map g xs)) = sum_mset (mset (map g ys))"
    by (simp only:)
  then show ?thesis
    by (simp only: sum_mset_sum_list)
qed

lemma length_groupsOf: "length (concat (map snd (groupsOf atoms))) = length atoms"
proof -
  have "size (mset (concat (map snd (groupsOf atoms)))) = size (mset atoms)"
    by (simp only: mset_groupsOf)
  then show ?thesis
    by (simp only: size_mset)
qed

lemma sum_atomCount:
  "sum_list (map (\<lambda>(cid, info). atomCount info) (metadataOf engine (entries (groupsOf atoms))))
     = length atoms"
proof -
  have "sum_list (map (length \<circ> snd) (entries (groupsOf atoms)))
          = sum_list (map (length \<circ> snd) (groupsOf atoms))"
    by (intro sum_list_mset_cong) (simp add: entries_def mset_keyOrder)
  then have "length (concat (map snd (entries (groupsOf atoms))))
               = length (concat (map snd (groupsOf atoms)))"
    by (simp add: length_concat comp_def)
  then show ?thesis
    by (simp only: sum_atomCount_metadataOf length_groupsOf)
qed

text \<open>
  Claim C3. When the chain metadata of a frame is computed, every chain id \<open>c\<close> that
  occurs in the frame has an entry, and the \<open>atomCount\<close> of that entry is the number of
  particles of the frame whose chain id is \<open>c\<close>. (The computation succeeds unless a chain
  id shadows an inherited property, see \<open>chainMetadataMap_cases\<close>.)
\<close>

theorem atomCount_exact:
  assumes "chainMetadataMap engine (Some atoms) = Inr m" and "c \<in> chain ` set atoms"
  shows "\<exists>info. getProp m c = Own info \<and> chainId info = c
           \<and> atomCount info = length (filter (\<lambda>a. chain a = c) atoms)"
proof -
  have m: "m = metadataOf engine (entries (groupsOf atoms))"
    using assms(1) by (simp add: chainMetadataMap_cases split: if_splits)
  have "getProp m c = Own (calculateChainInfo engine (filter (\<lambda>a. chain a = c) atoms) c)"
    unfolding m using assms(2) by (rule getProp_metadata)
  then show ?thesis
    by (simp add: atomCount_calculateChainInfo calculateChainInfo_def Let_def)
qed

lemma exampleFrame_ok: "\<not> (\<exists>a\<in>set exampleFrame. inherited (chain a))"
  by (simp add: exampleFrame_def atomA_def atomB_def inherited_def inheritedNames_def)

theorem atomCount_exact_witness:
  "''A'' \<in> chain ` set exampleFrame
   \<and> (\<exists>m. chainMetadataMap keepOrder (Some exampleFrame) = Inr m
          \<and> (\<exists>info. getProp m ''A'' = Own info \<and> atomCount info = 2))"
proof -
  have c: "''A'' \<in> chain ` set exampleFrame"
    by (simp add: exampleFrame_def atomA_def)
  obtain m where m: "chainMetadataMap keepOrder (Some exampleFrame) = Inr m"
    using exampleFrame_ok by (simp add: chainMetadataMap_cases)
  have n: "length (filter (\<lambda>a. chain a = ''A'') exampleFrame) = 2"
    by (simp add: exampleFrame_def atomA_def atomB_def)
  from atomCount_exact [OF m c] n m c show ?thesis by auto
qed

lemma groupsOf_groups:
  "\<forall>(k, as)\<in>set (groupsOf atoms). as = filter (\<lambda>a. chain a = k) atoms"
  by (auto simp: groupsOf_def)

lemma keys_groupsOf: "fst ` set (groupsOf atoms) = chain ` set atoms"
  by (force simp: groupsOf_def set_firstSeen)

lemma keys_metadataOf: "map fst (metadataOf engine groups) = map fst groups"
  by (induction groups) (auto simp: metadataOf_def)

text \<open>
  Claim C10. When the chain metadata of a frame is computed, the chain groups have
  distinct keys, namely the chain ids of the frame; a particle lies in the group of
  its own chain id and in no other; the groups together hold the particles of the
  frame, each as often as the frame does; and the atom counts of the metadata
  entries add up to the number of particles of the frame.
\<close>

theorem chain_groups_partition:
  assumes "chainMetadataMap engine (Some atoms) = Inr m"
  shows "\<exists>g. chainGroups atoms = Inr g
           \<and> distinct (map fst g) \<and> fst ` set g = chain ` set atoms
           \<and> (\<forall>a\<in>set atoms. \<forall>(k, as)\<in>set g. (a \<in> set as) = (k = chain a))
           \<and> mset (concat (map snd g)) = mset atoms
           \<and> map fst m = map fst (entries g)
           \<and> sum_list (map (\<lambda>(cid, info). atomCount info) m) = length atoms"
proof -
  have ok: "\<not> (\<exists>a\<in>set atoms. inherited (chain a))"
    using assms by (auto simp: chainMetadataMap_cases split: if_splits)
  have m: "m = metadataOf engine (entries (groupsOf atoms))"
    using assms by (simp add: chainMetadataMap_cases split: if_splits)
  have g: "chainGroups atoms = Inr (groupsOf atoms)"
    using ok by (simp add: chainGroups_cases)
  have p: "\<forall>a\<in>set atoms. \<forall>(k, as)\<in>set (groupsOf atoms). (a \<in> set as) = (k = chain a)"
    using groupsOf_groups [of atoms] by fastforce
  have s: "sum_list (map (\<lambda>(cid, info). atomCount info) m) = length atoms"
    unfolding m by (rule sum_atomCount)
  have k: "map fst m = map fst (entries (groupsOf atoms))"
    unfolding m by (rule keys_metadataOf)
  from g distinct_groupsOf keys_groupsOf p mset_groupsOf k s show ?thesis
    by blast
qed

theorem chain_groups_partition_witness:
  "\<exists>m. chainMetadataMap keepOrder (Some exampleFrame) = Inr m
       \<and> sum_list (map (\<lambda>(cid, info). atomCount info) m) = 3"
proof -
  obtain m where m: "chainMetadataMap keepOrder (Some exampleFrame) = Inr m"
    using exampleFrame_ok by (simp add: chainMetadataMap_cases)
  have n: "length exampleFrame = 3"
    by (simp add: exampleFrame_def)
  from chain_groups_partition [OF m] n m show ?thesis by auto
qed

section \<open>Properties of the common residues\<close>

lemma getProp_tableOf:
  "getProp (tableOf names) n =
     (if n \<in> set names then Own (Count (count_list names n))
      else if inherited n then Inherited else Undefined)"
  by (simp add: getProp_def tableOf_def map_of_tabulated set_firstSeen)

lemma frequencyStep_tableOf:
  assumes "\<not> inherited (residue x)"
  shows "frequencyStep (tableOf (map residue xs)) x = tableOf (map residue (xs @ [x]))"
proof (cases "residue x \<in> set (map residue xs)")
  case True
  have "setProp (tableOf (map residue xs)) (residue x)
          (Count (count_list (map residue xs) (residue x) + 1))
          = tableOf (map residue (xs @ [x]))"
    using True
    by (simp add: setProp_def tableOf_def update_tabulated set_firstSeen distinct_firstSeen
        firstSeen_snoc)
  then show ?thesis
    using True by (simp add: frequencyStep_def getProp_tableOf)
next
  case False
  have fresh: "residue x \<notin> fst ` set (tableOf (map residue xs))"
    using False by (auto simp: tableOf_def set_firstSeen)
  have zero: "count_list (map residue xs) (residue x) = 0"
    using False by (simp add: count_list_0_iff)
  have other: "\<forall>n\<in>set (firstSeen (map residue xs)). residue x \<noteq> n"
    using False by (auto simp: set_firstSeen)
  have "setProp (tableOf (map residue xs)) (residue x) (Count (0 + 1))
          = tableOf (map residue (xs @ [x]))"
    using fresh False zero other
    by (simp add: setProp_def update_fresh tableOf_def firstSeen_snoc)
  then show ?thesis
    using False assms by (simp add: frequencyStep_def getProp_tableOf)
qed

lemma residueFrequency_eq:
  "\<forall>a\<in>set atoms. \<not> inherited (residue a) \<Longrightarrow>
     residueFrequency atoms = tableOf (map residue atoms)"
proof (induction atoms rule: rev_induct)
  case Nil
  show ?case by (simp add: residueFrequency_def tableOf_def firstSeen_Nil)
next
  case (snoc x xs)
  then have "residueFrequency xs = tableOf (map residue xs)" by simp
  moreover have "frequencyStep (tableOf (map residue xs)) x = tableOf (map residue (xs @ [x]))"
    using snoc.prems by (intro frequencyStep_tableOf) simp
  ultimately show ?case
    by (simp add: residueFrequency_def)
qed

lemma insort_key_map:
  "insort_key k (f x) (map f xs) = map f (insort_key (\<lambda>y. k (f y)) x xs)"
  by (induction xs) auto

lemma sort_key_map: "sort_key k (map f xs) = map f (sort_key (\<lambda>y. k (f y)) xs)"
  by (induction xs) (simp_all add: insort_key_map)

lemma keyOrder_map: "keyOrder key (map f xs) = map f (keyOrder (\<lambda>y. key (f y)) xs)"
  by (simp add: keyOrder_def sort_key_map filter_map comp_def)

lemma keyOrder_no_index: "\<forall>x\<in>set xs. \<not> isArrayIndex (key x) \<Longrightarrow> keyOrder key xs = xs"
  by (simp add: keyOrder_def filter_empty_conv filter_id_conv)

lemma sortByFrequency_counts:
  "sortByFrequency engine (map (\<lambda>n. (n, Count (c n))) ks)
     = map (\<lambda>n. (n, Count (c n))) (sort_key (\<lambda>n. - int (c n)) ks)"
  by (simp add: sortByFrequency_def list_all_iff sort_key_map)

lemma commonResidues_tableOf:
  "map fst (take 5 (sortByFrequency engine (entries (tableOf names))))
     = take 5 (sort_key (\<lambda>n. - int (count_list names n)) (keyOrder (\<lambda>n. n) (firstSeen names)))"
  by (simp add: tableOf_def entries_def keyOrder_map sortByFrequency_counts take_map comp_def)

text \<open>
  Three groups on which the result does not depend on the engine: \<open>ALA\<close> then \<open>7\<close>;
  \<open>ALA\<close> once, then \<open>constructor\<close> twice; \<open>__proto__\<close> alone.
\<close>

lemma commonResidues_examples:
  "calcCommonResidues engine [atomA, atom7] = [''7'', ''ALA'']"
  "calcCommonResidues engine [atomA, atomC, atomC] = [''ALA'', ''constructor'']"
  "calcCommonResidues engine [atomP] = []"
  by (simp_all add: calcCommonResidues_def residueFrequency_def atomA_def atom7_def atomC_def
      atomP_def frequencyStep_def getProp_def setProp_def inherited_def inheritedNames_def
      entries_def keyOrder_def isArrayIndex_def isDigit_def decimal_def digitValue_def
      sortByFrequency_def counts_def)

text \<open>
  Claim C5, as stated, fails. With the residue names \<open>ALA\<close> and \<open>7\<close>, once each and in
  this order, the name \<open>7\<close> is listed first. A residue name that shadows an inherited
  property is not counted: with \<open>ALA\<close> once and \<open>constructor\<close> twice, \<open>ALA\<close> is listed
  first, and a group whose only residue name is \<open>__proto__\<close> gets the empty list.
\<close>

theorem commonResidues_ties_counterexample:
  "calcCommonResidues keepOrder [atomA, atom7] = [''7'', ''ALA'']
   \<and> spec_commonResidues [atomA, atom7] = [''ALA'', ''7'']
   \<and> calcCommonResidues keepOrder [atomA, atomC, atomC] = [''ALA'', ''constructor'']
   \<and> spec_commonResidues [atomA, atomC, atomC] = [''constructor'', ''ALA'']
   \<and> calcCommonResidues keepOrder [atomP] = []
   \<and> spec_commonResidues [atomP] = [''__proto__'']"
  by (simp add: commonResidues_examples)
     (simp add: spec_commonResidues_def firstSeen_def atomA_def atom7_def atomC_def atomP_def)

text \<open>
  Claim C5, amended. For every group none of whose residue names shadows an inherited
  property, the list holds the (at most five) most frequent residue names by
  descending frequency, and equally frequent names follow the enumeration order of
  the frequency table: names that are array indices first, in ascending numeric
  order, then the other names in order of first appearance. For a group without
  array-index names, ties are broken by first appearance.
\<close>

theorem commonResidues_key_order:
  assumes "\<forall>a\<in>set atoms. \<not> inherited (residue a)"
  shows "calcCommonResidues engine atoms
           = take 5 (sort_key (\<lambda>n. - int (count_list (map residue atoms) n))
                       (keyOrder (\<lambda>n. n) (firstSeen (map residue atoms))))
         \<and> ((\<forall>a\<in>set atoms. \<not> isArrayIndex (residue a)) \<longrightarrow>
              calcCommonResidues engine atoms = spec_commonResidues atoms)"
proof -
  have rs: "calcCommonResidues engine atoms
           = take 5 (sort_key (\<lambda>n. - int (count_list (map residue atoms) n))
                       (keyOrder (\<lambda>n. n) (firstSeen (map residue atoms))))"
    using residueFrequency_eq [OF assms]
    by (simp add: calcCommonResidues_def commonResidues_tableOf)
  moreover have "calcCommonResidues engine atoms = spec_commonResidues atoms"
    if "\<forall>a\<in>set atoms. \<not> isArrayIndex (residue a)"
  proof -
    have "keyOrder (\<lambda>n. n) (firstSeen (map residue atoms)) = firstSeen (map residue atoms)"
      using that by (intro keyOrder_no_index) (auto simp: set_firstSeen)
    then show ?thesis
      by (simp add: rs spec_commonResidues_def)
  qed
  ultimately show ?thesis by blast
qed

theorem commonResidues_key_order_witness:
  "map residue exampleFrame = [''ALA'', ''GLY'', ''ALA'']
   \<and> \<not> inherited ''ALA'' \<and> \<not> inherited ''GLY''
   \<and> \<not> isArrayIndex ''ALA'' \<and> \<not> isArrayIndex ''GLY''
   \<and> spec_commonResidues exampleFrame = [''ALA'', ''GLY'']
   \<and> calcCommonResidues keepOrder exampleFrame = [''ALA'', ''GLY'']"
proof -
  have r: "map residue exampleFrame = [''ALA'', ''GLY'', ''ALA'']"
    by (simp add: exampleFrame_def atomA_def atomB_def)
  have h: "\<not> inherited ''ALA''" "\<not> inherited ''GLY''"
    by (simp_all add: inherited_def inheritedNames_def)
  have i: "\<not> isArrayIndex ''ALA''" "\<not> isArrayIndex ''GLY''"
    by (simp_all add: isArrayIndex_def isDigit_def)
  have hs: "\<forall>a\<in>set exampleFrame. \<not> inherited (residue a)"
    using h by (simp add: exampleFrame_def atomA_def atomB_def)
  have ix: "\<forall>a\<in>set exampleFrame. \<not> isArrayIndex (residue a)"
    using i by (simp add: exampleFrame_def atomA_def atomB_def)
  have s: "spec_commonResidues exampleFrame = [''ALA'', ''GLY'']"
    by (simp add: spec_commonResidues_def firstSeen_def exampleFrame_def atomA_def atomB_def)
  from commonResidues_key_order [OF hs, of keepOrder] ix
  have "calcCommonResidues keepOrder exampleFrame = spec_commonResidues exampleFrame"
    by blast
  with r h i s show ?thesis by simp
qed

lemma spec_commonResidues_sorted:
  "sorted (map (\<lambda>n. - int (count_list (map residue atoms) n)) (spec_commonResidues atoms))"
  unfolding spec_commonResidues_def take_map [symmetric]
  by (intro sorted_wrt_take sorted_sort_key)

lemma spec_commonResidues_names:
  "distinct (spec_commonResidues atoms) \<and> set (spec_commonResidues atoms) \<subseteq> residue ` set atoms
   \<and> length (spec_commonResidues atoms) = min 5 (card (residue ` set atoms))"
proof -
  have "length (firstSeen (map residue atoms)) = card (residue ` set atoms)"
    using distinct_card [OF distinct_firstSeen, of "map residue atoms"]
    by (simp add: set_firstSeen)
  then show ?thesis
    by (auto simp: spec_commonResidues_def distinct_firstSeen set_firstSeen min.commute
        dest!: in_set_takeD)
qed

end
